theory Spec2Isabelle
  imports Complex_Main
begin

section \<open>Python values, exceptions and the module logger\<close>

text \<open>
  The values that travel through \<^verbatim>\<open>pyalgotrade/bitstamp/client.py\<close>: what
  \<^verbatim>\<open>json.loads\<close> returns (None, booleans, ints, floats, strings, lists, dicts) and
  opaque instances (a \<^verbatim>\<open>wsclient.Trade\<close> or \<^verbatim>\<open>wsclient.OrderBookUpdate\<close>, named by
  an identifier). A finite float is the rational it denotes; \<open>PyNonFinite\<close> stands for
  NaN and the two infinities. A dict is the association list of its items, keys unique.
\<close>

datatype pyval =
    PyNone
  | PyBool bool
  | PyInt int
  | PyFloat rat
  | PyNonFinite
  | PyStr string
  | PyList "pyval list"
  | PyDict "(string \<times> pyval) list"
  | PyObj nat

text \<open>
  Exceptions, all of them subclasses of Python's \<^verbatim>\<open>Exception\<close>, which is what the
  \<^verbatim>\<open>except Exception, e\<close> clauses of the source catch. \<open>Exception v\<close> is
  \<^verbatim>\<open>Exception(v)\<close> itself; the others are the library exceptions the code can meet.
\<close>

datatype exn =
    Exception pyval
  | AttributeError string
  | RuntimeError string
  | ValueError string
  | URLError string
  | QueueEmpty

text \<open>
  A call of the module-level \<^verbatim>\<open>logger\<close> is an effect \<open>Log level format args\<close>: the
  format string of the source and the values substituted into it. \<^verbatim>\<open>time.sleep(n)\<close>
  is the effect \<open>Sleep n\<close>. Every object keeps, in order, the effects its own methods
  performed.
\<close>

datatype level = LDebug | LInfo | LWarning | LError

datatype log_arg = ArgExn exn | ArgVal pyval | ArgInt int

datatype effect = Log level string "log_arg list" | Sleep nat

section \<open>WSClient: the connection worker\<close>

type_synonym event = "int \<times> pyval"

definition ON_TRADE :: int where "ON_TRADE = 1"
definition ON_ORDER_BOOK_UPDATE :: int where "ON_ORDER_BOOK_UPDATE = 2"
definition ON_CONNECTED :: int where "ON_CONNECTED = 3"
definition ON_DISCONNECTED :: int where "ON_DISCONNECTED = 4"

text \<open>
  A \<^verbatim>\<open>WSClient\<close> instance: its \<^verbatim>\<open>Queue.Queue()\<close> (unbounded, first in first out: head
  of the list is the next event \<^verbatim>\<open>get\<close> returns) and the effects of its callbacks.
\<close>

record WSClient =
  queue :: "event list"
  wsEffects :: "effect list"

definition WSClient_init :: WSClient where
  "WSClient_init = \<lparr>queue = [], wsEffects = []\<rparr>"

definition getQueue :: "WSClient \<Rightarrow> event list" where
  "getQueue ws = queue ws"

definition put :: "event \<Rightarrow> WSClient \<Rightarrow> WSClient" where
  "put ev ws = ws\<lparr>queue := queue ws @ [ev]\<rparr>"

definition wsLog :: "level \<Rightarrow> string \<Rightarrow> log_arg list \<Rightarrow> WSClient \<Rightarrow> WSClient" where
  "wsLog l fmt args ws = ws\<lparr>wsEffects := wsEffects ws @ [Log l fmt args]\<rparr>"

text \<open>
  \<^verbatim>\<open>onDisconnectionDetected\<close>. The inherited \<^verbatim>\<open>stopClient()\<close> is outside this file; its
  outcome is the parameter \<open>stopClient\<close>: \<open>None\<close> when it returns, \<open>Some e\<close> when it
  raises \<open>e\<close>. The try block is \<open>onDisconnectionDetected_try\<close>, the except clause is the
  \<open>Inl\<close> branch of \<open>onDisconnectionDetected\<close>.
\<close>

definition onDisconnectionDetected_try :: "exn option \<Rightarrow> WSClient \<Rightarrow> WSClient \<times> (exn + unit)" where
  "onDisconnectionDetected_try stopClient ws =
     (case stopClient of Some e \<Rightarrow> (ws, Inl e) | None \<Rightarrow> (ws, Inr ()))"

definition onDisconnectionDetected :: "exn option \<Rightarrow> WSClient \<Rightarrow> WSClient \<times> (exn + unit)" where
  "onDisconnectionDetected stopClient ws =
     (let ws1 = wsLog LInfo ''Disconnection detected.'' [] ws;
          ws3 = (case onDisconnectionDetected_try stopClient ws1 of
                   (ws2, Inl e) \<Rightarrow> wsLog LError ''Error stopping client: %s'' [ArgExn e] ws2
                 | (ws2, Inr u) \<Rightarrow> ws2)
      in (put (ON_DISCONNECTED, PyNone) ws3, Inr ()))"

text \<open>
  \<^verbatim>\<open>onConnectionEstablished\<close>: the two \<^verbatim>\<open>subscribeChannel\<close> calls are inherited; \<open>sub\<close>
  is \<open>Some e\<close> when one of them raises \<open>e\<close>, and then the exception leaves the callback
  before the put.
\<close>

definition onConnectionEstablished :: "exn option \<Rightarrow> WSClient \<Rightarrow> WSClient \<times> (exn + unit)" where
  "onConnectionEstablished sub ws =
     (let ws1 = wsLog LInfo ''Connection established.'' [] ws
      in case sub of
           Some e \<Rightarrow> (ws1, Inl e)
         | None \<Rightarrow> (put (ON_CONNECTED, PyNone) ws1, Inr ()))"

definition onTrade :: "pyval \<Rightarrow> WSClient \<Rightarrow> WSClient" where
  "onTrade trade ws = put (ON_TRADE, trade) ws"

definition onOrderBookUpdate :: "pyval \<Rightarrow> WSClient \<Rightarrow> WSClient" where
  "onOrderBookUpdate orderBookUpdate ws = put (ON_ORDER_BOOK_UPDATE, orderBookUpdate) ws"

definition onOpened :: "WSClient \<Rightarrow> WSClient" where
  "onOpened ws = ws"

definition onClosed :: "pyval \<Rightarrow> pyval \<Rightarrow> WSClient \<Rightarrow> WSClient" where
  "onClosed code reason ws = wsLog LInfo ''Closed. Code: %s. Reason: %s.'' [ArgVal code, ArgVal reason] ws"

definition onSubscriptionError :: "pyval \<Rightarrow> WSClient \<Rightarrow> WSClient" where
  "onSubscriptionError ev ws = wsLog LError ''Channel subscription error: %s'' [ArgVal ev] ws"

definition onError :: "pyval \<Rightarrow> WSClient \<Rightarrow> WSClient" where
  "onError ev ws = wsLog LError ''Error: %s'' [ArgVal ev] ws"

definition onUnknownEvent :: "pyval \<Rightarrow> WSClient \<Rightarrow> WSClient" where
  "onUnknownEvent ev ws = wsLog LWarning ''Unknown event: %s'' [ArgVal ev] ws"

section \<open>observer.Event: a notification point\<close>

text \<open>
  Modelled from the spec: \<^verbatim>\<open>pyalgotrade.observer.Event\<close> is not part of this file. The
  spec describes a subscribe-only notification point, a single logical event with
  several subscribers; emitting a payload delivers it to every subscriber. A subscriber
  is named by a number, and \<open>delivered\<close> lists, in order, which subscriber received
  which payload. Subscriber callbacks are taken to return normally.
\<close>

record Event =
  handlers :: "nat list"
  delivered :: "(nat \<times> pyval) list"

definition Event_init :: Event where
  "Event_init = \<lparr>handlers = [], delivered = []\<rparr>"

definition subscribe :: "nat \<Rightarrow> Event \<Rightarrow> Event" where
  "subscribe h e = (if h \<in> set (handlers e) then e else e\<lparr>handlers := handlers e @ [h]\<rparr>)"

definition emit :: "pyval \<Rightarrow> Event \<Rightarrow> Event" where
  "emit d e = e\<lparr>delivered := delivered e @ map (\<lambda>h. (h, d)) (handlers e)\<rparr>"

section \<open>Client: connection lifecycle and dispatch\<close>

text \<open>
  A \<^verbatim>\<open>threading.Thread\<close>: created but not started (its \<^verbatim>\<open>start()\<close> raised),
  running, or finished. Only a running thread is alive.
\<close>

datatype Thread = Unstarted | Running | Finished

fun is_alive :: "Thread \<Rightarrow> bool" where
  "is_alive Running = True"
| "is_alive Unstarted = False"
| "is_alive Finished = False"

text \<open>
  The fields of \<^verbatim>\<open>Client\<close>, with the \<^verbatim>\<open>WSClient\<close> the client refers to held in
  place (the client holds the only reference the code below follows). \<open>effects\<close>
  lists, in order, the logger calls and sleeps of the client's own methods.
\<close>

record Client =
  thread :: "Thread option"
  initializationOk :: "bool option"
  wsClient :: "WSClient option"
  enableReconnection :: bool
  stopped :: bool
  tradeEvent :: Event
  orderBookUpdateEvent :: Event
  effects :: "effect list"

definition Client_init :: Client where
  "Client_init =
     \<lparr>thread = None, initializationOk = None, wsClient = None,
      enableReconnection = False, stopped = False,
      tradeEvent = Event_init, orderBookUpdateEvent = Event_init, effects = []\<rparr>"

definition cLog :: "level \<Rightarrow> string \<Rightarrow> log_arg list \<Rightarrow> Client \<Rightarrow> Client" where
  "cLog l fmt args c = c\<lparr>effects := effects c @ [Log l fmt args]\<rparr>"

definition sleep :: "nat \<Rightarrow> Client \<Rightarrow> Client" where
  "sleep n c = c\<lparr>effects := effects c @ [Sleep n]\<rparr>"

text \<open>
  A method of the client returns the client after the call together with either the
  exception it raised (\<open>Inl\<close>) or its value (\<open>Inr\<close>); the assignments made before a
  raise stay. \<open>None\<close> is a call that has not returned within the behaviour of the
  outside world it was given.
\<close>

type_synonym 'a result = "(Client \<times> (exn + 'a)) option"

subsection \<open>What the worker thread does\<close>

text \<open>
  The worker thread runs \<^verbatim>\<open>__threadMain\<close>: inside \<^verbatim>\<open>startClient()\<close> the protocol
  library calls the callbacks of the client's current \<^verbatim>\<open>WSClient\<close>; when
  \<^verbatim>\<open>startClient()\<close> returns the thread logs and ends, when it raises the thread ends.
\<close>

datatype wact =
    OnOpened
  | OnClosed pyval pyval
  | OnDisconnectionDetected "exn option"
  | OnConnectionEstablished "exn option"
  | OnSubscriptionError pyval
  | OnError pyval
  | OnUnknownEvent pyval
  | OnTrade pyval
  | OnOrderBookUpdate pyval
  | StartClientReturns
  | StartClientRaises exn

definition onWS :: "(WSClient \<Rightarrow> WSClient) \<Rightarrow> Client \<Rightarrow> Client" where
  "onWS f c = c\<lparr>wsClient := map_option f (wsClient c)\<rparr>"

definition threadEnds :: "bool \<Rightarrow> Client \<Rightarrow> Client" where
  "threadEnds logs c =
     (case thread c of
        Some Running \<Rightarrow>
          (let c1 = c\<lparr>thread := Some Finished\<rparr>
           in if logs then cLog LDebug ''Thread finished.'' [] c1 else c1)
      | _ \<Rightarrow> c)"

fun worker_step :: "wact \<Rightarrow> Client \<Rightarrow> Client" where
  "worker_step OnOpened c = onWS onOpened c"
| "worker_step (OnClosed code reason) c = onWS (onClosed code reason) c"
| "worker_step (OnDisconnectionDetected r) c = onWS (\<lambda>ws. fst (onDisconnectionDetected r ws)) c"
| "worker_step (OnConnectionEstablished r) c = onWS (\<lambda>ws. fst (onConnectionEstablished r ws)) c"
| "worker_step (OnSubscriptionError ev) c = onWS (onSubscriptionError ev) c"
| "worker_step (OnError ev) c = onWS (onError ev) c"
| "worker_step (OnUnknownEvent ev) c = onWS (onUnknownEvent ev) c"
| "worker_step (OnTrade d) c = onWS (onTrade d) c"
| "worker_step (OnOrderBookUpdate d) c = onWS (onOrderBookUpdate d) c"
| "worker_step StartClientReturns c = threadEnds True c"
| "worker_step (StartClientRaises e) c = threadEnds False c"

definition worker :: "wact list \<Rightarrow> Client \<Rightarrow> Client" where
  "worker ws c = fold worker_step ws c"

subsection \<open>\_\_dispatchImpl\<close>

definition onConnected :: "Client \<Rightarrow> Client" where
  "onConnected c = c\<lparr>initializationOk := Some True\<rparr>"

text \<open>
  \<^verbatim>\<open>__dispatchImpl(eventFilter)\<close>, with the handler of a Disconnected event as the
  parameter \<open>onDisc\<close> (the source calls \<^verbatim>\<open>self.__onDisconnected()\<close>, defined below from
  \<^verbatim>\<open>__initializeClient\<close>, which in turn calls \<^verbatim>\<open>__dispatchImpl\<close>).
  \<^verbatim>\<open>get(True, QUEUE_TIMEOUT)\<close> on an empty queue raises \<^verbatim>\<open>Queue.Empty\<close>, which the
  except clause turns into the value of \<^verbatim>\<open>ret\<close>; the clause covers the handlers too.
  Without a \<^verbatim>\<open>WSClient\<close> the attribute access on \<^verbatim>\<open>None\<close> raises.
\<close>

definition dispatchImplWith ::
  "(Client \<Rightarrow> unit result) \<Rightarrow> int list option \<Rightarrow> Client \<Rightarrow> bool result" where
  "dispatchImplWith onDisc eventFilter c =
     (case wsClient c of
        None \<Rightarrow> Some (c, Inl (AttributeError ''getQueue''))
      | Some ws \<Rightarrow>
          (case getQueue ws of
             [] \<Rightarrow> Some (c, Inr False)
           | (eventType, eventData) # rest \<Rightarrow>
               (let c1 = c\<lparr>wsClient := Some (ws\<lparr>queue := rest\<rparr>)\<rparr>
                in if (case eventFilter of None \<Rightarrow> False | Some fs \<Rightarrow> eventType \<notin> set fs)
                   then Some (c1, Inr False)
                   else if eventType = ON_TRADE
                   then Some (c1\<lparr>tradeEvent := emit eventData (tradeEvent c1)\<rparr>, Inr True)
                   else if eventType = ON_ORDER_BOOK_UPDATE
                   then Some (c1\<lparr>orderBookUpdateEvent := emit eventData (orderBookUpdateEvent c1)\<rparr>,
                              Inr True)
                   else if eventType = ON_CONNECTED
                   then Some (onConnected c1, Inr True)
                   else if eventType = ON_DISCONNECTED
                   then (case onDisc c1 of
                           None \<Rightarrow> None
                         | Some (c2, Inl e) \<Rightarrow>
                             (if e = QueueEmpty then Some (c2, Inr True) else Some (c2, Inl e))
                         | Some (c2, Inr u) \<Rightarrow> Some (c2, Inr True))
                   else Some (cLog LError ''Invalid event received to dispatch: %s - %s''
                                [ArgInt eventType, ArgVal eventData] c1, Inr False))))"

subsection \<open>\_\_initializeClient\<close>

text \<open>
  What one connection attempt meets outside the client. \<open>connecting\<close> is the outcome of
  the try block: \<^verbatim>\<open>WSClient()\<close> raises, or \<^verbatim>\<open>connect()\<close> (or the construction of the
  thread) raises, or \<^verbatim>\<open>self.__thread.start()\<close> raises, or all of them return.
  \<open>activity\<close> gives, for each evaluation of the condition of the wait loop in turn, the
  callbacks the worker thread has run since the previous one.
\<close>

datatype connect_outcome =
    WSClientRaises exn
  | ConnectRaises exn
  | ThreadStartRaises exn
  | Connects

record attempt =
  connecting :: connect_outcome
  activity :: "wact list list"

text \<open>
  The try block. A thread that starts logs \<^verbatim>\<open>Thread started.\<close> from \<^verbatim>\<open>__threadMain\<close>.
\<close>

definition initializeClient_try :: "connect_outcome \<Rightarrow> Client \<Rightarrow> Client \<times> (exn + unit)" where
  "initializeClient_try co c =
     (let c1 = c\<lparr>thread := None\<rparr>
      in case co of
           WSClientRaises e \<Rightarrow> (c1, Inl e)
         | ConnectRaises e \<Rightarrow> (c1\<lparr>wsClient := Some WSClient_init\<rparr>, Inl e)
         | ThreadStartRaises e \<Rightarrow>
             (c1\<lparr>wsClient := Some WSClient_init, thread := Some Unstarted\<rparr>, Inl e)
         | Connects \<Rightarrow>
             (cLog LDebug ''Thread started.'' []
                (c1\<lparr>wsClient := Some WSClient_init, thread := Some Running\<rparr>), Inr ()))"

text \<open>
  Under the filter \<^verbatim>\<open>[WSClient.ON_CONNECTED]\<close> the Disconnected branch of
  \<^verbatim>\<open>__dispatchImpl\<close> is never taken (lemma \<open>dispatchImplWith_connected_filter\<close> below), so
  the handler passed in the wait loop is never run.
\<close>

definition noReentry :: "Client \<Rightarrow> unit result" where
  "noReentry c = None"

text \<open>
  The wait loop \<^verbatim>\<open>while self.__initializationOk is None and self.__thread.is_alive()\<close>.
  The condition is evaluated left to right; \<^verbatim>\<open>is_alive\<close> on \<^verbatim>\<open>None\<close> raises. When
  the described activity is used up and the loop would go on, the result is \<open>None\<close>.
\<close>

fun waitForInitialization :: "wact list list \<Rightarrow> Client \<Rightarrow> unit result" where
  "waitForInitialization [] c =
     (if initializationOk c \<noteq> None then Some (c, Inr ())
      else case thread c of
             None \<Rightarrow> Some (c, Inl (AttributeError ''is_alive''))
           | Some t \<Rightarrow> if is_alive t then None else Some (c, Inr ()))"
| "waitForInitialization (b # bs) c =
     (if initializationOk c \<noteq> None then Some (c, Inr ())
      else (let c1 = worker b c
            in case thread c1 of
                 None \<Rightarrow> Some (c1, Inl (AttributeError ''is_alive''))
               | Some t \<Rightarrow>
                   if is_alive t
                   then (case dispatchImplWith noReentry (Some [ON_CONNECTED]) c1 of
                           None \<Rightarrow> None
                         | Some (c2, Inl e) \<Rightarrow> Some (c2, Inl e)
                         | Some (c2, Inr r) \<Rightarrow> waitForInitialization bs c2)
                   else Some (c1, Inr ())))"

definition initializeClient :: "attempt \<Rightarrow> Client \<Rightarrow> (bool option) result" where
  "initializeClient a c =
     (let c0 = cLog LInfo ''Initializing client.'' [] (c\<lparr>initializationOk := None\<rparr>);
          c2 = (case initializeClient_try (connecting a) c0 of
                  (c1, Inl e) \<Rightarrow>
                    cLog LError ''Error connecting : %s'' [ArgExn e] (c1\<lparr>initializationOk := Some False\<rparr>)
                | (c1, Inr u) \<Rightarrow> c1)
      in case waitForInitialization (activity a) c2 of
           None \<Rightarrow> None
         | Some (c3, Inl e) \<Rightarrow> Some (c3, Inl e)
         | Some (c3, Inr u) \<Rightarrow>
             (if initializationOk c3 = Some True
              then Some (cLog LInfo ''Initialization ok.'' [] c3, Inr (initializationOk c3))
              else Some (cLog LError ''Initialization failed.'' [] c3, Inr (initializationOk c3))))"

subsection \<open>stop\<close>

text \<open>
  \<^verbatim>\<open>stop()\<close>. The inherited \<^verbatim>\<open>stopClient()\<close> is a call into the outside world, which
  sees the client as it is at the moment of the call: \<open>stopClient c\<close> is \<open>None\<close> when
  the call returns and \<open>Some e\<close> when it raises \<open>e\<close>.
\<close>

definition stop_try :: "(Client \<Rightarrow> exn option) \<Rightarrow> Client \<Rightarrow> Client \<times> (exn + unit)" where
  "stop_try stopClient c =
     (let c1 = c\<lparr>stopped := True\<rparr>
      in case thread c1 of
           None \<Rightarrow> (c1, Inr ())
         | Some t \<Rightarrow>
             if is_alive t
             then (let c2 = cLog LInfo ''Shutting down client.'' [] c1
                   in case wsClient c2 of
                        None \<Rightarrow> (c2, Inl (AttributeError ''stopClient''))
                      | Some ws \<Rightarrow>
                          (case stopClient c2 of Some e \<Rightarrow> (c2, Inl e) | None \<Rightarrow> (c2, Inr ())))
             else (c1, Inr ()))"

definition stop :: "(Client \<Rightarrow> exn option) \<Rightarrow> Client \<Rightarrow> Client \<times> (exn + unit)" where
  "stop stopClient c =
     (case stop_try stopClient c of
        (c1, Inl e) \<Rightarrow> (cLog LError ''Error shutting down client: %s'' [ArgExn e] c1, Inr ())
      | (c1, Inr u) \<Rightarrow> (c1, Inr ()))"

subsection \<open>\_\_onDisconnected\<close>

text \<open>
  The retry loop \<^verbatim>\<open>while not self.__stopped and not initialized\<close> runs on the
  consumer thread; the loop reads \<^verbatim>\<open>__stopped\<close> in its condition and nowhere else.
  Each iteration meets one \<open>attempt\<close>. Beside it stands the call of \<^verbatim>\<open>stop()\<close>, if
  any, that another caller makes while the iteration runs: \<open>None\<close> for no call,
  \<open>Some stopClient\<close> for a call whose \<^verbatim>\<open>stopClient()\<close> behaves as \<open>stopClient\<close>. The
  call is \<open>stop\<close> itself, run on the client as the iteration leaves it, after the
  attempt and its sleep and before the condition is evaluated again. When the described
  attempts are used up and the loop would go on, the result is \<open>None\<close>.
\<close>

type_synonym retry_world = "(attempt \<times> (Client \<Rightarrow> exn option) option) list"

definition stopFromElsewhere :: "(Client \<Rightarrow> exn option) option \<Rightarrow> Client \<Rightarrow> Client" where
  "stopFromElsewhere call c =
     (case call of None \<Rightarrow> c | Some stopClient \<Rightarrow> fst (stop stopClient c))"

fun reconnect :: "retry_world \<Rightarrow> Client \<Rightarrow> unit result" where
  "reconnect [] c = (if \<not> stopped c then None else Some (c, Inr ()))"
| "reconnect ((a, stopCall) # rest) c =
     (if \<not> stopped c
      then (case initializeClient a (cLog LInfo ''Reconnecting'' [] c) of
              None \<Rightarrow> None
            | Some (c1, Inl e) \<Rightarrow> Some (c1, Inl e)
            | Some (c1, Inr initialized) \<Rightarrow>
                (let c2 = (if initialized \<noteq> Some True then sleep 5 c1 else c1);
                     c3 = stopFromElsewhere stopCall c2
                 in if initialized \<noteq> Some True then reconnect rest c3 else Some (c3, Inr ())))
      else Some (c, Inr ()))"

definition onDisconnected :: "retry_world \<Rightarrow> Client \<Rightarrow> unit result" where
  "onDisconnected env c =
     (if enableReconnection c then reconnect env c
      else Some (c\<lparr>stopped := True\<rparr>, Inr ()))"

definition dispatchImpl :: "retry_world \<Rightarrow> int list option \<Rightarrow> Client \<Rightarrow> bool result" where
  "dispatchImpl env eventFilter c = dispatchImplWith (onDisconnected env) eventFilter c"

subsection \<open>The public methods\<close>

definition AlreadyRunning :: exn where
  "AlreadyRunning = Exception (PyStr ''Already running'')"

definition InitializationFailed :: exn where
  "InitializationFailed = Exception (PyStr ''Initialization failed'')"

definition start :: "attempt \<Rightarrow> Client \<Rightarrow> unit result" where
  "start a c =
     (if thread c \<noteq> None then Some (c, Inl AlreadyRunning)
      else (case initializeClient a c of
              None \<Rightarrow> None
            | Some (c1, Inl e) \<Rightarrow> Some (c1, Inl e)
            | Some (c1, Inr ok) \<Rightarrow>
                if ok \<noteq> Some True then Some (c1\<lparr>stopped := True\<rparr>, Inl InitializationFailed)
                else Some (c1, Inr ())))"

text \<open>
  \<^verbatim>\<open>join()\<close> waits for the thread: the worker goes on, callback after callback, until
  the thread has ended. Joining a thread that was never started raises.
\<close>

fun joinThread :: "wact list \<Rightarrow> Client \<Rightarrow> Client option" where
  "joinThread [] c = (if thread c = Some Running then None else Some c)"
| "joinThread (w # ws) c = (if thread c = Some Running then joinThread ws (worker_step w c) else Some c)"

definition join :: "wact list \<Rightarrow> Client \<Rightarrow> unit result" where
  "join ws c =
     (case thread c of
        None \<Rightarrow> Some (c, Inr ())
      | Some Unstarted \<Rightarrow> Some (c, Inl (RuntimeError ''cannot join thread before it is started''))
      | Some t \<Rightarrow> (case joinThread ws c of None \<Rightarrow> None | Some c1 \<Rightarrow> Some (c1, Inr ())))"

definition eof :: "Client \<Rightarrow> bool" where
  "eof c = stopped c"

definition dispatch :: "retry_world \<Rightarrow> Client \<Rightarrow> bool result" where
  "dispatch env c = dispatchImpl env None c"

definition peekDateTime :: "Client \<Rightarrow> pyval" where
  "peekDateTime c = PyNone"

definition getTradeEvent :: "Client \<Rightarrow> Event" where
  "getTradeEvent c = tradeEvent c"

definition getOrderBookUpdateEvent :: "Client \<Rightarrow> Event" where
  "getOrderBookUpdateEvent c = orderBookUpdateEvent c"

subsection \<open>Sequences of calls\<close>

text \<open>
  What can happen to a client from outside: a call of a public method, a subscription
  to one of the two notification points, or a step of the worker thread. \<open>exec\<close> gives
  the client after the call, whether the call returned or raised.
\<close>

datatype call =
    Start attempt
  | Stop "Client \<Rightarrow> exn option"
  | Join "wact list"
  | Eof
  | Dispatch retry_world
  | PeekDateTime
  | SubscribeTrade nat
  | SubscribeOrderBookUpdate nat
  | Worker wact

fun exec :: "call \<Rightarrow> Client \<Rightarrow> Client option" where
  "exec (Start a) c = map_option fst (start a c)"
| "exec (Stop stopClient) c = Some (fst (stop stopClient c))"
| "exec (Join ws) c = map_option fst (join ws c)"
| "exec Eof c = Some c"
| "exec (Dispatch env) c = map_option fst (dispatch env c)"
| "exec PeekDateTime c = Some c"
| "exec (SubscribeTrade h) c = Some (c\<lparr>tradeEvent := subscribe h (getTradeEvent c)\<rparr>)"
| "exec (SubscribeOrderBookUpdate h) c =
     Some (c\<lparr>orderBookUpdateEvent := subscribe h (getOrderBookUpdateEvent c)\<rparr>)"
| "exec (Worker w) c = Some (worker_step w c)"

fun run :: "call list \<Rightarrow> Client \<Rightarrow> Client option" where
  "run [] c = Some c"
| "run (x # xs) c = (case exec x c of None \<Rightarrow> None | Some c1 \<Rightarrow> run xs c1)"

section \<open>HTTPClient: the signed REST calls\<close>




text \<open>
  Python's \<^verbatim>\<open>x != True\<close> on a decoded JSON value: \<^verbatim>\<open>bool\<close> is a subclass of
  \<^verbatim>\<open>int\<close> and \<^verbatim>\<open>True\<close> is the number 1, so numbers compare by value; every other
  value differs from \<^verbatim>\<open>True\<close>.
\<close>

fun ne_True :: "pyval \<Rightarrow> bool" where
  "ne_True (PyBool b) = (\<not> b)"
| "ne_True (PyInt i) = (i \<noteq> 1)"
| "ne_True (PyFloat r) = (r \<noteq> 1)"
| "ne_True v = True"


section \<open>Vocabulary of the properties\<close>

text \<open>
  \<open>sleeps c\<close>: the durations of the \<^verbatim>\<open>time.sleep\<close> calls made so far, in order.
  \<open>frame c c'\<close>: the fields that neither \<^verbatim>\<open>__initializeClient\<close> nor the worker thread
  assigns are the same in \<open>c\<close> and \<open>c'\<close>, and no sleep lies between them.
\<close>

definition sleeps :: "Client \<Rightarrow> nat list" where
  "sleeps c = concat (map (\<lambda>e. case e of Sleep n \<Rightarrow> [n] | Log l f xs \<Rightarrow> []) (effects c))"

definition frame :: "Client \<Rightarrow> Client \<Rightarrow> bool" where
  "frame c c' \<longleftrightarrow>
     enableReconnection c' = enableReconnection c \<and> stopped c' = stopped c \<and>
     tradeEvent c' = tradeEvent c \<and> orderBookUpdateEvent c' = orderBookUpdateEvent c \<and>
     sleeps c' = sleeps c"

text \<open>
  \<open>waiting c\<close>: the wait loop is under way and no Connected event is on the queue.
\<close>

definition waiting :: "Client \<Rightarrow> bool" where
  "waiting c \<longleftrightarrow>
     initializationOk c = None \<and>
     (thread c = Some Running \<or> thread c = Some Finished) \<and>
     (case wsClient c of
        None \<Rightarrow> False
      | Some ws \<Rightarrow> list_all (\<lambda>ev. fst ev \<noteq> ON_CONNECTED) (queue ws))"

text \<open>
  Steps of the worker thread by what they mean for the wait loop: the step that ends the
  thread, and the step that puts a Connected event on the queue.
\<close>

fun endsThread :: "wact \<Rightarrow> bool" where
  "endsThread StartClientReturns = True"
| "endsThread (StartClientRaises e) = True"
| "endsThread w = False"

fun putsConnected :: "wact \<Rightarrow> bool" where
  "putsConnected (OnConnectionEstablished None) = True"
| "putsConnected w = False"

text \<open>
  Two connection attempts: one whose \<^verbatim>\<open>connect()\<close> raises, and one that connects and
  whose worker reports the established connection before the first poll. \<open>retries n\<close>
  is a world in which \<open>n\<close> attempts fail, the next one succeeds, and nobody calls
  \<^verbatim>\<open>stop()\<close>.
\<close>

definition failingAttempt :: attempt where
  "failingAttempt = \<lparr>connecting = ConnectRaises (URLError ''unreachable''), activity = []\<rparr>"

definition succeedingAttempt :: attempt where
  "succeedingAttempt = \<lparr>connecting = Connects, activity = [[OnConnectionEstablished None]]\<rparr>"


text \<open>
  A client with one trade subscriber that was started, received a trade on its queue and
  was then stopped (lemma \<open>stoppedWithQueuedTrade_reached\<close>).
\<close>

definition stoppedWithQueuedTrade :: Client where
  "stoppedWithQueuedTrade =
     \<lparr>thread = Some Running, initializationOk = Some True,
      wsClient = Some \<lparr>queue = [(ON_TRADE, PyObj 1)],
                       wsEffects = [Log LInfo ''Connection established.'' []]\<rparr>,
      enableReconnection = False, stopped = True,
      tradeEvent = \<lparr>handlers = [7], delivered = []\<rparr>,
      orderBookUpdateEvent = \<lparr>handlers = [], delivered = []\<rparr>,
      effects = [Log LInfo ''Initializing client.'' [], Log LDebug ''Thread started.'' [],
                 Log LInfo ''Initialization ok.'' [], Log LInfo ''Shutting down client.'' []]\<rparr>"


section \<open>Auxiliary facts\<close>

lemmas kinds = ON_TRADE_def ON_ORDER_BOOK_UPDATE_def ON_CONNECTED_def ON_DISCONNECTED_def

lemma frame_refl [simp]: "frame c c"
  by (simp add: frame_def sleeps_def)

lemma frame_trans: "frame a b \<Longrightarrow> frame b c \<Longrightarrow> frame a c"
  by (simp add: frame_def sleeps_def)

lemma frame_cLog [simp]: "frame c (cLog l f xs c')  = frame c c'"
  by (simp add: frame_def sleeps_def cLog_def)

lemma worker_step_frame: "frame c (worker_step w c)"
  by (cases w) (auto simp: frame_def sleeps_def onWS_def threadEnds_def cLog_def split: option.splits Thread.splits)

lemma worker_step_initOk [simp]: "initializationOk (worker_step w c) = initializationOk c"
  by (cases w) (auto simp: onWS_def threadEnds_def cLog_def split: option.splits Thread.splits)

lemma worker_step_thread_None [simp]: "thread (worker_step w c) = None \<longleftrightarrow> thread c = None"
  by (cases w) (auto simp: onWS_def threadEnds_def cLog_def split: option.splits Thread.splits)

lemma worker_step_wsClient_None [simp]: "wsClient (worker_step w c) = None \<longleftrightarrow> wsClient c = None"
  by (cases w) (auto simp: onWS_def threadEnds_def cLog_def split: option.splits Thread.splits)

lemma worker_frame: "frame c (worker ws c)"
  unfolding worker_def
proof (induction ws arbitrary: c)
  case Nil
  show ?case by simp
next
  case (Cons w ws)
  show ?case using frame_trans [OF worker_step_frame Cons.IH] by simp
qed

lemma worker_initOk [simp]: "initializationOk (worker ws c) = initializationOk c"
  unfolding worker_def by (induction ws arbitrary: c) simp_all

lemma worker_thread_None [simp]: "thread (worker ws c) = None \<longleftrightarrow> thread c = None"
  unfolding worker_def by (induction ws arbitrary: c) simp_all

lemma worker_wsClient_None [simp]: "wsClient (worker ws c) = None \<longleftrightarrow> wsClient c = None"
  unfolding worker_def by (induction ws arbitrary: c) simp_all

text \<open>Under the filter [ON_CONNECTED] the handler is never run.\<close>

lemma dispatchImplWith_connected_filter:
  "dispatchImplWith h (Some [ON_CONNECTED]) c = dispatchImplWith h' (Some [ON_CONNECTED]) c"
  by (simp add: dispatchImplWith_def Let_def kinds split: option.splits list.splits)

lemma dispatchImplWith_connected_cases:
  assumes "wsClient c \<noteq> None"
  shows "\<exists>c2 r. dispatchImplWith h (Some [ON_CONNECTED]) c = Some (c2, Inr r) \<and> frame c c2 \<and>
           thread c2 = thread c \<and> wsClient c2 \<noteq> None \<and> effects c2 = effects c \<and>
           (initializationOk c2 = initializationOk c \<or> initializationOk c2 = Some True)"
  using assms
  by (auto simp: dispatchImplWith_def Let_def kinds frame_def sleeps_def onConnected_def
      split: option.splits list.splits)

lemma waitForInitialization_no_raise:
  assumes "initializationOk c \<noteq> None \<or> (thread c \<noteq> None \<and> wsClient c \<noteq> None)"
    and "waitForInitialization bs c = Some (c', r)"
  shows "r = Inr () \<and> frame c c' \<and> (thread c \<noteq> None \<longrightarrow> thread c' \<noteq> None)"
  using assms
proof (induction bs arbitrary: c)
  case Nil
  then show ?case by (auto split: if_splits option.splits)
next
  case (Cons b bs)
  show ?case
  proof (cases "initializationOk c \<noteq> None")
    case True
    with Cons.prems show ?thesis by auto
  next
    case False
    with Cons.prems have pre: "thread c \<noteq> None" "wsClient c \<noteq> None" by auto
    let ?c1 = "worker b c"
    from pre obtain t where t: "thread ?c1 = Some t"
      by (cases "thread ?c1") auto
    show ?thesis
    proof (cases "is_alive t")
      case dead: False
      with False t Cons.prems(2) have "c' = ?c1" "r = Inr ()" by auto
      then show ?thesis using worker_frame [of c b] pre by simp
    next
      case True
      from pre have "wsClient ?c1 \<noteq> None" by simp
      from dispatchImplWith_connected_cases [OF this, of noReentry]
      obtain c2 r2 where d: "dispatchImplWith noReentry (Some [ON_CONNECTED]) ?c1 = Some (c2, Inr r2)"
        and f: "frame ?c1 c2" and th: "thread c2 = thread ?c1" and w: "wsClient c2 \<noteq> None"
        by blast
      from False t True d Cons.prems(2) have rec: "waitForInitialization bs c2 = Some (c', r)"
        by simp
      have "initializationOk c2 \<noteq> None \<or> (thread c2 \<noteq> None \<and> wsClient c2 \<noteq> None)"
        using th t w by simp
      from Cons.IH [OF this rec] have "r = Inr ()" "frame c2 c'" "thread c' \<noteq> None"
        using th t by auto
      then show ?thesis
        using frame_trans [OF worker_frame [of c b] frame_trans [OF f \<open>frame c2 c'\<close>]] by simp
    qed
  qed
qed


lemma initializeClient_try_cases:
  "initializeClient_try co c = (c1, r) \<Longrightarrow>
     frame c c1 \<and> initializationOk c1 = initializationOk c \<and>
     (case co of Connects \<Rightarrow> r = Inr () \<and> thread c1 = Some Running \<and> wsClient c1 = Some WSClient_init
      | ThreadStartRaises e \<Rightarrow> r = Inl e \<and> thread c1 = Some Unstarted
      | ConnectRaises e \<Rightarrow> r = Inl e \<and> thread c1 = None
      | WSClientRaises e \<Rightarrow> r = Inl e \<and> thread c1 = None)"
  by (auto simp: initializeClient_try_def Let_def frame_def sleeps_def cLog_def split: connect_outcome.splits)

lemma initializeClient_cases:
  assumes "initializeClient a c = Some (c', r)"
  shows "r = Inr (initializationOk c') \<and> frame c c' \<and>
         (connecting a \<noteq> Connects \<longrightarrow> initializationOk c' = Some False)"
proof -
  let ?c0 = "cLog LInfo ''Initializing client.'' [] (c\<lparr>initializationOk := None\<rparr>)"
  obtain c1 r1 where t: "initializeClient_try (connecting a) ?c0 = (c1, r1)"
    by (cases "initializeClient_try (connecting a) ?c0")
  note tc = initializeClient_try_cases [OF t]
  define c2 where "c2 = (case r1 of Inl e \<Rightarrow>
      cLog LError ''Error connecting : %s'' [ArgExn e] (c1\<lparr>initializationOk := Some False\<rparr>)
    | Inr u \<Rightarrow> c1)"
  have f2: "frame c c2"
    using tc by (auto simp: c2_def frame_def sleeps_def cLog_def split: sum.splits)
  have pre: "initializationOk c2 \<noteq> None \<or> (thread c2 \<noteq> None \<and> wsClient c2 \<noteq> None)"
    using tc by (cases "connecting a") (auto simp: c2_def cLog_def split: sum.splits)
  have fail: "connecting a \<noteq> Connects \<Longrightarrow> initializationOk c2 = Some False"
    using tc by (cases "connecting a") (auto simp: c2_def cLog_def split: sum.splits)
  from assms t obtain c3 r3 where w: "waitForInitialization (activity a) c2 = Some (c3, r3)"
    by (cases "waitForInitialization (activity a) c2")
       (auto simp: initializeClient_def Let_def c2_def split: sum.splits)
  from waitForInitialization_no_raise [OF pre w] have r3: "r3 = Inr ()" and f3: "frame c2 c3"
    by auto
  have keep: "initializationOk c2 \<noteq> None \<Longrightarrow> c3 = c2"
    using w by (cases "activity a") auto
  from assms t w r3 have res: "(c', r) = (if initializationOk c3 = Some True
       then (cLog LInfo ''Initialization ok.'' [] c3, Inr (initializationOk c3))
       else (cLog LError ''Initialization failed.'' [] c3, Inr (initializationOk c3)))"
    by (auto simp: initializeClient_def Let_def c2_def split: sum.splits)
  then have "r = Inr (initializationOk c')" "frame c3 c'" "initializationOk c' = initializationOk c3"
    by (auto simp: cLog_def frame_def sleeps_def split: if_splits)
  then show ?thesis
    using frame_trans [OF f2 frame_trans [OF f3 \<open>frame c3 c'\<close>]] fail keep by auto
qed

lemma stop_fields:
  "enableReconnection (fst (stop sc c)) = enableReconnection c"
  "stopped (fst (stop sc c))"
  "thread (fst (stop sc c)) = thread c"
  "wsClient (fst (stop sc c)) = wsClient c"
  "initializationOk (fst (stop sc c)) = initializationOk c"
  "tradeEvent (fst (stop sc c)) = tradeEvent c"
  "orderBookUpdateEvent (fst (stop sc c)) = orderBookUpdateEvent c"
  "sleeps (fst (stop sc c)) = sleeps c"
  by (simp_all add: stop_def stop_try_def Let_def cLog_def sleeps_def split: option.splits)

lemma stopFromElsewhere_fields:
  "enableReconnection (stopFromElsewhere s c) = enableReconnection c"
  "stopped (stopFromElsewhere s c) \<longleftrightarrow> stopped c \<or> s \<noteq> None"
  "thread (stopFromElsewhere s c) = thread c"
  "wsClient (stopFromElsewhere s c) = wsClient c"
  "initializationOk (stopFromElsewhere s c) = initializationOk c"
  "tradeEvent (stopFromElsewhere s c) = tradeEvent c"
  "orderBookUpdateEvent (stopFromElsewhere s c) = orderBookUpdateEvent c"
  "sleeps (stopFromElsewhere s c) = sleeps c"
  by (cases s; simp add: stopFromElsewhere_def stop_fields)+

lemma reconnect_cases:
  assumes "reconnect env c = Some (c', r)"
  shows "r = Inr () \<and> enableReconnection c' = enableReconnection c \<and>
         tradeEvent c' = tradeEvent c \<and> orderBookUpdateEvent c' = orderBookUpdateEvent c \<and>
         (stopped c \<longrightarrow> c' = c) \<and> (stopped c' \<or> initializationOk c' = Some True)"
  using assms
proof (induction env arbitrary: c)
  case Nil
  then show ?case by (auto split: if_splits)
next
  case (Cons x env)
  obtain a stopCall where x: "x = (a, stopCall)" by (cases x)
  show ?case
  proof (cases "stopped c")
    case True
    with Cons.prems x show ?thesis by auto
  next
    case False
    let ?cl = "cLog LInfo ''Reconnecting'' [] c"
    from Cons.prems x False obtain c1 r1 where i: "initializeClient a ?cl = Some (c1, r1)"
      by (cases "initializeClient a ?cl") auto
    from initializeClient_cases [OF i] have r1: "r1 = Inr (initializationOk c1)" and f1: "frame ?cl c1"
      by auto
    define c3 where "c3 = stopFromElsewhere stopCall
      (if initializationOk c1 \<noteq> Some True then sleep 5 c1 else c1)"
    have c3: "enableReconnection c3 = enableReconnection c" "tradeEvent c3 = tradeEvent c"
      "orderBookUpdateEvent c3 = orderBookUpdateEvent c" "initializationOk c3 = initializationOk c1"
      using f1 by (auto simp: c3_def stopFromElsewhere_fields sleep_def frame_def cLog_def)
    show ?thesis
    proof (cases "initializationOk c1 = Some True")
      case True
      with Cons.prems x False i r1 have "c' = c3" "r = Inr ()"
        by (auto simp: c3_def Let_def)
      with c3 True False show ?thesis by simp
    next
      case failed: False
      with Cons.prems x False i r1 have "reconnect env c3 = Some (c', r)"
        by (auto simp: c3_def Let_def)
      from Cons.IH [OF this] c3 False show ?thesis by simp
    qed
  qed
qed

lemma onDisconnected_cases:
  assumes "onDisconnected env c = Some (c', r)"
  shows "r = Inr () \<and> enableReconnection c' = enableReconnection c \<and>
         tradeEvent c' = tradeEvent c \<and> orderBookUpdateEvent c' = orderBookUpdateEvent c \<and>
         (stopped c \<longrightarrow> stopped c')"
  using assms reconnect_cases [of env c c' r]
  by (auto simp: onDisconnected_def split: if_splits)

lemma dispatch_unfold:
  "dispatch env c = dispatchImplWith (onDisconnected env) None c"
  by (simp add: dispatch_def dispatchImpl_def)

lemma dispatch_empty:
  "wsClient c = Some ws \<Longrightarrow> queue ws = [] \<Longrightarrow> dispatch env c = Some (c, Inr False)"
  by (simp add: dispatch_unfold dispatchImplWith_def getQueue_def)

lemma dispatch_trade:
  "wsClient c = Some ws \<Longrightarrow> queue ws = (ON_TRADE, d) # rest \<Longrightarrow>
   dispatch env c =
     Some (c\<lparr>wsClient := Some (ws\<lparr>queue := rest\<rparr>), tradeEvent := emit d (tradeEvent c)\<rparr>, Inr True)"
  by (simp add: dispatch_unfold dispatchImplWith_def getQueue_def Let_def)

lemma dispatch_orderBookUpdate:
  "wsClient c = Some ws \<Longrightarrow> queue ws = (ON_ORDER_BOOK_UPDATE, d) # rest \<Longrightarrow>
   dispatch env c =
     Some (c\<lparr>wsClient := Some (ws\<lparr>queue := rest\<rparr>),
             orderBookUpdateEvent := emit d (orderBookUpdateEvent c)\<rparr>, Inr True)"
  by (simp add: dispatch_unfold dispatchImplWith_def getQueue_def Let_def kinds)

lemma dispatch_connected:
  "wsClient c = Some ws \<Longrightarrow> queue ws = (ON_CONNECTED, d) # rest \<Longrightarrow>
   dispatch env c =
     Some (c\<lparr>wsClient := Some (ws\<lparr>queue := rest\<rparr>), initializationOk := Some True\<rparr>, Inr True)"
  by (simp add: dispatch_unfold dispatchImplWith_def getQueue_def Let_def kinds onConnected_def)

lemma dispatch_disconnected:
  assumes "wsClient c = Some ws" and "queue ws = (ON_DISCONNECTED, d) # rest"
  shows "dispatch env c =
     (case onDisconnected env (c\<lparr>wsClient := Some (ws\<lparr>queue := rest\<rparr>)\<rparr>) of
        None \<Rightarrow> None | Some (c2, r) \<Rightarrow> Some (c2, Inr True))"
proof (cases "onDisconnected env (c\<lparr>wsClient := Some (ws\<lparr>queue := rest\<rparr>)\<rparr>)")
  case None
  with assms show ?thesis
    by (simp add: dispatch_unfold dispatchImplWith_def getQueue_def Let_def kinds)
next
  case (Some p)
  obtain c2 r where p: "p = (c2, r)" by (cases p)
  from onDisconnected_cases [OF Some [unfolded p]] have "r = Inr ()" by simp
  with assms Some p show ?thesis
    by (simp add: dispatch_unfold dispatchImplWith_def getQueue_def Let_def kinds)
qed

lemma dispatch_disconnected_no_reconnection:
  assumes "wsClient c = Some ws" and "queue ws = (ON_DISCONNECTED, d) # rest"
    and "\<not> enableReconnection c"
  shows "dispatch env c = Some (c\<lparr>wsClient := Some (ws\<lparr>queue := rest\<rparr>), stopped := True\<rparr>, Inr True)"
  using assms by (simp add: dispatch_disconnected onDisconnected_def)

lemma dispatch_invalid:
  assumes "wsClient c = Some ws" and "queue ws = (k, d) # rest"
    and "k \<notin> {ON_TRADE, ON_ORDER_BOOK_UPDATE, ON_CONNECTED, ON_DISCONNECTED}"
  shows "dispatch env c =
     Some (cLog LError ''Invalid event received to dispatch: %s - %s'' [ArgInt k, ArgVal d]
             (c\<lparr>wsClient := Some (ws\<lparr>queue := rest\<rparr>)\<rparr>), Inr False)"
  using assms by (simp add: dispatch_unfold dispatchImplWith_def getQueue_def Let_def)

lemma dispatch_no_wsClient:
  "wsClient c = None \<Longrightarrow> dispatch env c = Some (c, Inl (AttributeError ''getQueue''))"
  by (simp add: dispatch_unfold dispatchImplWith_def)

lemma dispatch_True_iff:
  assumes "wsClient c = Some ws" and "dispatch env c = Some (c', res)"
  shows "res = Inr True \<longleftrightarrow>
         (\<exists>k d rest. queue ws = (k, d) # rest \<and>
            k \<in> {ON_TRADE, ON_ORDER_BOOK_UPDATE, ON_CONNECTED, ON_DISCONNECTED})"
proof (cases "queue ws")
  case Nil
  with assms dispatch_empty [OF assms(1) Nil, of env] show ?thesis by auto
next
  case (Cons x rest)
  obtain k d where x: "x = (k, d)" by (cases x)
  note q = Cons [unfolded x]
  consider "k = ON_TRADE" | "k = ON_ORDER_BOOK_UPDATE" | "k = ON_CONNECTED" | "k = ON_DISCONNECTED"
    | "k \<notin> {ON_TRADE, ON_ORDER_BOOK_UPDATE, ON_CONNECTED, ON_DISCONNECTED}" by blast
  then show ?thesis
  proof cases
    case 1
    with assms q dispatch_trade [OF assms(1), of d rest env] show ?thesis by auto
  next
    case 2
    with assms q dispatch_orderBookUpdate [OF assms(1), of d rest env] show ?thesis by auto
  next
    case 3
    with assms q dispatch_connected [OF assms(1), of d rest env] show ?thesis by auto
  next
    case 4
    with assms q dispatch_disconnected [OF assms(1), of d rest env] show ?thesis
      by (auto split: option.splits)
  next
    case 5
    with assms q dispatch_invalid [OF assms(1) q 5, of env] show ?thesis by auto
  qed
qed

lemma dispatch_frame:
  assumes "dispatch env c = Some (c', r)"
  shows "enableReconnection c' = enableReconnection c \<and> (stopped c \<longrightarrow> stopped c') \<and>
         (\<not> enableReconnection c \<longrightarrow> thread c' = thread c)"
proof (cases "wsClient c")
  case None
  with assms dispatch_no_wsClient [OF None, of env] show ?thesis by auto
next
  case (Some ws)
  show ?thesis
  proof (cases "queue ws")
    case Nil
    with assms dispatch_empty [OF Some Nil, of env] show ?thesis by auto
  next
    case (Cons x rest)
    obtain k d where x: "x = (k, d)" by (cases x)
    note q = Cons [unfolded x]
    let ?c1 = "c\<lparr>wsClient := Some (ws\<lparr>queue := rest\<rparr>)\<rparr>"
    consider "k = ON_TRADE" | "k = ON_ORDER_BOOK_UPDATE" | "k = ON_CONNECTED" | "k = ON_DISCONNECTED"
      | "k \<notin> {ON_TRADE, ON_ORDER_BOOK_UPDATE, ON_CONNECTED, ON_DISCONNECTED}" by blast
    then show ?thesis
    proof cases
      case 1
      with assms q dispatch_trade [OF Some, of d rest env] show ?thesis by auto
    next
      case 2
      with assms q dispatch_orderBookUpdate [OF Some, of d rest env] show ?thesis by auto
    next
      case 3
      with assms q dispatch_connected [OF Some, of d rest env] show ?thesis by auto
    next
      case 4
      with assms q dispatch_disconnected [OF Some, of d rest env]
      obtain r' where od: "onDisconnected env ?c1 = Some (c', r')"
        by (auto split: option.splits)
      from onDisconnected_cases [OF od] have a: "enableReconnection c' = enableReconnection c"
        "stopped c \<longrightarrow> stopped c'" by auto
      have "thread c' = thread c" if "\<not> enableReconnection c"
        using od that by (auto simp: onDisconnected_def)
      with a show ?thesis by simp
    next
      case 5
      with assms q dispatch_invalid [OF Some q 5, of env] show ?thesis by (auto simp: cLog_def)
    qed
  qed
qed

lemma start_frame:
  assumes "start a c = Some (c', r)"
  shows "enableReconnection c' = enableReconnection c \<and> (stopped c \<longrightarrow> stopped c') \<and>
         (thread c \<noteq> None \<longrightarrow> c' = c)"
proof (cases "thread c")
  case None
  with assms obtain c1 r1 where i: "initializeClient a c = Some (c1, r1)"
    by (cases "initializeClient a c") (auto simp: start_def)
  from initializeClient_cases [OF i] have "frame c c1" and r1: "r1 = Inr (initializationOk c1)" by auto
  moreover from assms None i r1 have "c' = c1 \<or> c' = c1\<lparr>stopped := True\<rparr>"
    by (auto simp: start_def split: if_splits)
  ultimately show ?thesis using None by (auto simp: frame_def sleeps_def)
next
  case (Some t)
  with assms show ?thesis by (simp add: start_def)
qed

lemma joinThread_frame:
  "joinThread ws c = Some c' \<Longrightarrow> frame c c' \<and> (thread c' = None \<longleftrightarrow> thread c = None)"
proof (induction ws arbitrary: c)
  case Nil
  then show ?case by (auto split: if_splits)
next
  case (Cons w ws)
  show ?case
  proof (cases "thread c = Some Running")
    case True
    with Cons.prems have "joinThread ws (worker_step w c) = Some c'" by simp
    from Cons.IH [OF this] show ?thesis
      using frame_trans [OF worker_step_frame [of c w]] by simp
  next
    case False
    with Cons.prems show ?thesis by simp
  qed
qed

lemma join_frame:
  assumes "join ws c = Some (c', r)"
  shows "frame c c' \<and> (thread c' = None \<longleftrightarrow> thread c = None)"
proof (cases "thread c")
  case None
  with assms show ?thesis by (simp add: join_def)
next
  case (Some t)
  show ?thesis
  proof (cases "t = Unstarted")
    case True
    with assms Some show ?thesis by (simp add: join_def)
  next
    case False
    with assms Some obtain c1 where "joinThread ws c = Some c1" "c' = c1"
      by (cases t; cases "joinThread ws c") (auto simp: join_def)
    with joinThread_frame [of ws c c1] show ?thesis by simp
  qed
qed

lemma stop_frame:
  "enableReconnection (fst (stop sc c)) = enableReconnection c \<and> stopped (fst (stop sc c)) \<and>
   thread (fst (stop sc c)) = thread c"
  by (simp add: stop_def stop_try_def Let_def cLog_def split: option.splits)

lemma exec_frame:
  assumes "exec x c = Some c'"
  shows "enableReconnection c' = enableReconnection c \<and> (stopped c \<longrightarrow> stopped c') \<and>
         (\<not> enableReconnection c \<and> thread c \<noteq> None \<longrightarrow> thread c' \<noteq> None)"
proof (cases x)
  case (Start a)
  with assms obtain r where "start a c = Some (c', r)" by auto
  from start_frame [OF this] show ?thesis by auto
next
  case (Stop sc)
  with assms stop_frame [of sc c] show ?thesis by auto
next
  case (Join ws)
  with assms obtain r where "join ws c = Some (c', r)" by auto
  from join_frame [OF this] show ?thesis by (auto simp: frame_def sleeps_def)
next
  case (Dispatch env)
  with assms obtain r where "dispatch env c = Some (c', r)" by auto
  from dispatch_frame [OF this] show ?thesis by auto
next
  case (Worker w)
  with assms worker_step_frame [of c w] worker_step_thread_None [of w c] show ?thesis
    by (auto simp: frame_def sleeps_def)
qed (use assms in auto)

lemma run_frame:
  "run xs c = Some c' \<Longrightarrow>
     enableReconnection c' = enableReconnection c \<and> (stopped c \<longrightarrow> stopped c') \<and>
     (\<not> enableReconnection c \<and> thread c \<noteq> None \<longrightarrow> thread c' \<noteq> None)"
proof (induction xs arbitrary: c)
  case Nil
  then show ?case by simp
next
  case (Cons x xs)
  then obtain c1 where e: "exec x c = Some c1" and r: "run xs c1 = Some c'"
    by (cases "exec x c") auto
  from exec_frame [OF e] Cons.IH [OF r] show ?case by auto
qed

lemma Client_init_no_reconnection: "\<not> enableReconnection Client_init"
  by (simp add: Client_init_def)

lemmas model_defs =
  start_def initializeClient_def initializeClient_try_def dispatchImplWith_def getQueue_def
  onConnected_def cLog_def worker_def onWS_def onConnectionEstablished_def onTrade_def
  put_def wsLog_def WSClient_init_def Client_init_def Event_init_def subscribe_def
  getTradeEvent_def stop_def stop_try_def succeedingAttempt_def failingAttempt_def kinds Let_def
  threadEnds_def join_def emit_def

lemma stoppedWithQueuedTrade_reached:
  "run [SubscribeTrade 7, Start succeedingAttempt, Worker (OnTrade (PyObj 1)), Stop (\<lambda>c. None)]
     Client_init = Some stoppedWithQueuedTrade"
  by (auto simp: model_defs stoppedWithQueuedTrade_def)


lemma ne_True_iff: "\<not> ne_True j \<longleftrightarrow> j \<in> {PyBool True, PyInt 1, PyFloat 1}"
  by (cases j) auto


lemma worker_step_waiting:
  "waiting c \<Longrightarrow> \<not> putsConnected w \<Longrightarrow> waiting (worker_step w c)"
proof (cases w)
  case (OnConnectionEstablished r)
  assume "waiting c" "\<not> putsConnected w"
  with OnConnectionEstablished show ?thesis
    by (cases r) (auto simp: waiting_def onWS_def onConnectionEstablished_def wsLog_def Let_def
        split: option.splits)
qed (auto simp: waiting_def onWS_def threadEnds_def cLog_def onOpened_def onClosed_def
      onDisconnectionDetected_def onDisconnectionDetected_try_def onSubscriptionError_def
      onError_def onUnknownEvent_def onTrade_def onOrderBookUpdate_def put_def wsLog_def kinds
      Let_def split: option.splits Thread.splits)

lemma worker_step_Finished:
  "thread c = Some Finished \<Longrightarrow> thread (worker_step w c) = Some Finished"
  by (cases w) (auto simp: onWS_def threadEnds_def)

lemma worker_step_ends:
  "waiting c \<Longrightarrow> endsThread w \<Longrightarrow> thread (worker_step w c) = Some Finished"
  by (cases w) (auto simp: waiting_def threadEnds_def cLog_def)

lemma fold_worker_step_waiting:
  "waiting c \<Longrightarrow> \<forall>w\<in>set ws. \<not> putsConnected w \<Longrightarrow> waiting (fold worker_step ws c)"
  by (induction ws arbitrary: c) (simp_all add: worker_step_waiting)

lemma fold_worker_step_Finished:
  "thread c = Some Finished \<Longrightarrow> thread (fold worker_step ws c) = Some Finished"
  by (induction ws arbitrary: c) (simp_all add: worker_step_Finished)

lemma fold_worker_step_ends:
  "waiting c \<Longrightarrow> \<forall>w\<in>set ws. \<not> putsConnected w \<Longrightarrow> \<exists>w\<in>set ws. endsThread w \<Longrightarrow>
   thread (fold worker_step ws c) = Some Finished"
proof (induction ws arbitrary: c)
  case Nil
  then show ?case by simp
next
  case (Cons w ws)
  show ?case
  proof (cases "endsThread w")
    case True
    with Cons.prems show ?thesis
      by (simp add: worker_step_ends fold_worker_step_Finished)
  next
    case False
    with Cons.prems have "\<exists>w\<in>set ws. endsThread w" by simp
    with Cons.IH [of "worker_step w c"] Cons.prems show ?thesis
      by (simp add: worker_step_waiting)
  qed
qed

lemma dispatch_while_waiting:
  assumes "waiting c"
  shows "\<exists>c2. dispatchImplWith h (Some [ON_CONNECTED]) c = Some (c2, Inr False) \<and> waiting c2 \<and>
           thread c2 = thread c \<and> frame c c2"
proof -
  from assms obtain ws where ws: "wsClient c = Some ws"
    and q: "list_all (\<lambda>ev. fst ev \<noteq> ON_CONNECTED) (queue ws)"
    by (auto simp: waiting_def split: option.splits)
  show ?thesis
  proof (cases "queue ws")
    case Nil
    with ws assms show ?thesis by (simp add: dispatchImplWith_def getQueue_def)
  next
    case (Cons x rest)
    obtain k d where x: "x = (k, d)" by (cases x)
    with q Cons have "k \<noteq> ON_CONNECTED" "list_all (\<lambda>ev. fst ev \<noteq> ON_CONNECTED) rest" by auto
    with ws Cons x assms show ?thesis
      by (simp add: dispatchImplWith_def getQueue_def Let_def waiting_def frame_def sleeps_def)
  qed
qed

lemma wait_thread_dies:
  assumes "waiting c" and "k < length bs" and "\<exists>w\<in>set (bs ! k). endsThread w"
    and "\<forall>w\<in>set (concat (take (Suc k) bs)). \<not> putsConnected w"
  shows "\<exists>c'. waitForInitialization bs c = Some (c', Inr ()) \<and> initializationOk c' = None \<and> frame c c'"
  using assms
proof (induction bs arbitrary: c k)
  case Nil
  then show ?case by simp
next
  case (Cons b bs)
  let ?c1 = "worker b c"
  from Cons.prems have nb: "\<forall>w\<in>set b. \<not> putsConnected w" by simp
  with Cons.prems(1) have w1: "waiting ?c1"
    by (simp add: worker_def fold_worker_step_waiting)
  have init: "initializationOk c = None" using Cons.prems(1) by (simp add: waiting_def)
  have f1: "frame c ?c1" by (rule worker_frame)
  show ?case
  proof (cases "thread ?c1 = Some Running")
    case False
    with w1 have fin: "thread ?c1 = Some Finished" by (simp add: waiting_def)
    with init have "waitForInitialization (b # bs) c = Some (?c1, Inr ())" by simp
    with w1 f1 show ?thesis by (simp add: waiting_def)
  next
    case True
    have "k \<noteq> 0"
    proof
      assume "k = 0"
      with Cons.prems(3) have "\<exists>w\<in>set b. endsThread w" by simp
      from fold_worker_step_ends [OF Cons.prems(1) nb this] True show False
        by (simp add: worker_def)
    qed
    then obtain j where k: "k = Suc j" by (cases k) auto
    from dispatch_while_waiting [OF w1, of noReentry] obtain c2 where
      d: "dispatchImplWith noReentry (Some [ON_CONNECTED]) ?c1 = Some (c2, Inr False)"
      and w2: "waiting c2" and f2: "frame ?c1 c2" by blast
    from Cons.prems k have "j < length bs" "\<exists>w\<in>set (bs ! j). endsThread w"
      "\<forall>w\<in>set (concat (take (Suc j) bs)). \<not> putsConnected w" by auto
    from Cons.IH [OF w2 this] obtain c' where
      r: "waitForInitialization bs c2 = Some (c', Inr ())" "initializationOk c' = None" "frame c2 c'"
      by blast
    from init True d r(1) have "waitForInitialization (b # bs) c = Some (c', Inr ())" by simp
    with r frame_trans [OF f1 frame_trans [OF f2 r(3)]] show ?thesis by simp
  qed
qed

lemma initializeClient_connect_raises:
  assumes "connecting a \<noteq> Connects"
  shows "\<exists>c'. initializeClient a c = Some (c', Inr (Some False))"
proof -
  let ?c0 = "cLog LInfo ''Initializing client.'' [] (c\<lparr>initializationOk := None\<rparr>)"
  obtain c1 r1 where t: "initializeClient_try (connecting a) ?c0 = (c1, r1)"
    by (cases "initializeClient_try (connecting a) ?c0")
  from initializeClient_try_cases [OF t] assms obtain e where r1: "r1 = Inl e"
    by (cases "connecting a") auto
  let ?c2 = "cLog LError ''Error connecting : %s'' [ArgExn e] (c1\<lparr>initializationOk := Some False\<rparr>)"
  have i: "initializationOk ?c2 = Some False" by (simp add: cLog_def)
  then have "waitForInitialization (activity a) ?c2 = Some (?c2, Inr ())"
    by (cases "activity a") simp_all
  with t r1 i show ?thesis
    by (simp add: initializeClient_def Let_def cLog_def)
qed

lemma initializeClient_thread_dies:
  assumes "connecting a = Connects" and "k < length (activity a)"
    and "\<exists>w\<in>set (activity a ! k). endsThread w"
    and "\<forall>w\<in>set (concat (take (Suc k) (activity a))). \<not> putsConnected w"
  shows "\<exists>c'. initializeClient a c = Some (c', Inr None)"
proof -
  let ?c0 = "cLog LInfo ''Initializing client.'' [] (c\<lparr>initializationOk := None\<rparr>)"
  let ?c2 = "cLog LDebug ''Thread started.'' [] (?c0\<lparr>thread := None, wsClient := Some WSClient_init, thread := Some Running\<rparr>)"
  have t: "initializeClient_try (connecting a) ?c0 = (?c2, Inr ())"
    using assms(1) by (simp add: initializeClient_try_def Let_def)
  have "waiting ?c2"
    by (simp add: waiting_def cLog_def WSClient_init_def)
  from wait_thread_dies [OF this assms(2,3,4)] obtain c3 where
    "waitForInitialization (activity a) ?c2 = Some (c3, Inr ())" "initializationOk c3 = None"
    by blast
  with t show ?thesis
    by (simp add: initializeClient_def Let_def cLog_def)
qed

lemma start_result:
  assumes "thread c = None" and "start a c = Some (c', r)"
  shows "(r = Inl InitializationFailed \<longleftrightarrow> initializationOk c' \<noteq> Some True) \<and>
         (r = Inl InitializationFailed \<longrightarrow> stopped c' \<and> eof c') \<and>
         (r \<noteq> Inl InitializationFailed \<longrightarrow> r = Inr ())"
proof -
  from assms obtain c1 r1 where i: "initializeClient a c = Some (c1, r1)"
    by (cases "initializeClient a c") (auto simp: start_def)
  from initializeClient_cases [OF i] have r1: "r1 = Inr (initializationOk c1)" by simp
  with assms i show ?thesis
    by (auto simp: start_def eof_def split: if_splits)
qed

lemma sleeps_simps [simp]:
  "sleeps (cLog l f xs c) = sleeps c"
  "sleeps (sleep n c) = sleeps c @ [n]"
  "sleeps (c\<lparr>stopped := b\<rparr>) = sleeps c"
  "sleeps (stopFromElsewhere s c) = sleeps c"
  by (simp_all add: sleeps_def cLog_def sleep_def stopFromElsewhere_fields [unfolded sleeps_def])











section \<open>The claims\<close>

subsection \<open>C1: eof and later dispatches\<close>

text \<open>
  C1, as stated, fails: \<^verbatim>\<open>__dispatchImpl\<close> never reads \<^verbatim>\<open>__stopped\<close>. On the client
  \<open>stoppedWithQueuedTrade\<close> (started, a trade queued, then stopped) \<^verbatim>\<open>eof()\<close> is true,
  and the next \<^verbatim>\<open>dispatch()\<close> still pops the trade, delivers it to the subscriber and
  returns true.
\<close>

theorem dispatch_after_eof_counterexample:
  "eof stoppedWithQueuedTrade \<and>
   dispatch [] stoppedWithQueuedTrade =
     Some (stoppedWithQueuedTrade
             \<lparr>wsClient := Some \<lparr>queue = [], wsEffects = [Log LInfo ''Connection established.'' []]\<rparr>,
              tradeEvent := \<lparr>handlers = [7], delivered = [(7, PyObj 1)]\<rparr>\<rparr>, Inr True)"
  by (simp add: eof_def dispatch_unfold stoppedWithQueuedTrade_def dispatchImplWith_def getQueue_def
      emit_def kinds)

text \<open>
  C1, amended. \<^verbatim>\<open>eof()\<close> is the value of \<^verbatim>\<open>__stopped\<close>, and once it is true it stays
  true through every later call and every step of the worker. With the flag set,
  \<^verbatim>\<open>dispatch()\<close> on an empty queue returns false and changes nothing. \<^verbatim>\<open>dispatch()\<close>
  does not consult the flag: a queued Trade or OrderBookUpdate event is popped, delivered
  to the subscribers and reported as processed, whatever the flag is.
\<close>

theorem eof_permanent_dispatch_ignores_flag:
  "eof c = stopped c \<and>
   (\<forall>xs c'. eof c \<and> run xs c = Some c' \<longrightarrow> eof c') \<and>
   (\<forall>env ws. eof c \<and> wsClient c = Some ws \<and> queue ws = [] \<longrightarrow>
      dispatch env c = Some (c, Inr False)) \<and>
   (\<forall>env ws d rest. wsClient c = Some ws \<and> queue ws = (ON_TRADE, d) # rest \<longrightarrow>
      dispatch env c =
        Some (c\<lparr>wsClient := Some (ws\<lparr>queue := rest\<rparr>), tradeEvent := emit d (tradeEvent c)\<rparr>,
              Inr True)) \<and>
   (\<forall>env ws d rest. wsClient c = Some ws \<and> queue ws = (ON_ORDER_BOOK_UPDATE, d) # rest \<longrightarrow>
      dispatch env c =
        Some (c\<lparr>wsClient := Some (ws\<lparr>queue := rest\<rparr>),
                orderBookUpdateEvent := emit d (orderBookUpdateEvent c)\<rparr>, Inr True))"
proof (intro conjI allI impI)
  show "eof c = stopped c" by (simp add: eof_def)
next
  fix xs c'
  assume "eof c \<and> run xs c = Some c'"
  then show "eof c'" using run_frame [of xs c c'] by (simp add: eof_def)
next
  fix env ws
  assume "eof c \<and> wsClient c = Some ws \<and> queue ws = []"
  then show "dispatch env c = Some (c, Inr False)" by (simp add: dispatch_empty)
next
  fix env ws d rest
  assume "wsClient c = Some ws \<and> queue ws = (ON_TRADE, d) # rest"
  then show "dispatch env c =
        Some (c\<lparr>wsClient := Some (ws\<lparr>queue := rest\<rparr>), tradeEvent := emit d (tradeEvent c)\<rparr>, Inr True)"
    by (simp add: dispatch_trade)
next
  fix env ws d rest
  assume "wsClient c = Some ws \<and> queue ws = (ON_ORDER_BOOK_UPDATE, d) # rest"
  then show "dispatch env c =
        Some (c\<lparr>wsClient := Some (ws\<lparr>queue := rest\<rparr>),
                orderBookUpdateEvent := emit d (orderBookUpdateEvent c)\<rparr>, Inr True)"
    by (simp add: dispatch_orderBookUpdate)
qed

theorem eof_permanent_dispatch_ignores_flag_witness:
  "eof (Client_init\<lparr>stopped := True, wsClient := Some WSClient_init\<rparr>) \<and>
   run [Worker (OnTrade (PyObj 1)), Dispatch []] (Client_init\<lparr>stopped := True, wsClient := Some WSClient_init\<rparr>)
     = Some (Client_init\<lparr>stopped := True, wsClient := Some WSClient_init\<rparr>) \<and>
   dispatch [] (Client_init\<lparr>stopped := True, wsClient := Some WSClient_init\<rparr>)
     = Some (Client_init\<lparr>stopped := True, wsClient := Some WSClient_init\<rparr>, Inr False)"
proof -
  let ?c = "Client_init\<lparr>stopped := True, wsClient := Some WSClient_init\<rparr>"
  note t = eof_permanent_dispatch_ignores_flag [of ?c]
  have e: "eof ?c" using t by simp
  have r: "run [Worker (OnTrade (PyObj 1)), Dispatch []] ?c = Some ?c"
    by (simp add: model_defs dispatch_unfold)
  from t have "\<forall>xs c'. eof ?c \<and> run xs ?c = Some c' \<longrightarrow> eof c'" by blast
  from this [rule_format, of "[Worker (OnTrade (PyObj 1)), Dispatch []]" ?c] e r have "eof ?c" by simp
  have h: "wsClient ?c = Some WSClient_init \<and> queue WSClient_init = []"
    by (simp add: WSClient_init_def)
  from t have "\<forall>env ws. eof ?c \<and> wsClient ?c = Some ws \<and> queue ws = [] \<longrightarrow>
      dispatch env ?c = Some (?c, Inr False)" by blast
  from this [rule_format, of WSClient_init "[]"] e h
  have d: "dispatch [] ?c = Some (?c, Inr False)" by blast
  from e r d show ?thesis by blast
qed

subsection \<open>C2: a filtered dispatch consumes the event it rejects\<close>

text \<open>
  C2. Whenever the channel is not empty and a filter is supplied, a call of
  \<^verbatim>\<open>__dispatchImpl\<close> that pops an event whose kind is not in the filter returns false
  and leaves every field of the client as it was, except that the queue has lost the
  popped event: the rest of the queue is what later calls pop from, nothing is put
  back and nothing is delivered to a subscriber.
\<close>

theorem filtered_dispatch_discards:
  assumes "wsClient c = Some ws" and "queue ws = (k, d) # rest" and "k \<notin> set fs"
  shows "dispatchImpl env (Some fs) c = Some (c\<lparr>wsClient := Some (ws\<lparr>queue := rest\<rparr>)\<rparr>, Inr False)"
  using assms by (simp add: dispatchImpl_def dispatchImplWith_def getQueue_def)

theorem filtered_dispatch_discards_witness:
  "dispatchImpl [] (Some [ON_CONNECTED])
     (Client_init\<lparr>wsClient := Some \<lparr>queue = [(ON_TRADE, PyObj 1), (ON_CONNECTED, PyNone)], wsEffects = []\<rparr>,
                  tradeEvent := \<lparr>handlers = [7], delivered = []\<rparr>\<rparr>)
   = Some (Client_init\<lparr>wsClient := Some \<lparr>queue = [(ON_CONNECTED, PyNone)], wsEffects = []\<rparr>,
                       tradeEvent := \<lparr>handlers = [7], delivered = []\<rparr>\<rparr>, Inr False)"
proof -
  let ?ws = "\<lparr>queue = [(ON_TRADE, PyObj 1), (ON_CONNECTED, PyNone)], wsEffects = []\<rparr>"
  let ?c = "Client_init\<lparr>wsClient := Some ?ws, tradeEvent := \<lparr>handlers = [7], delivered = []\<rparr>\<rparr>"
  have h1: "wsClient ?c = Some ?ws" by simp
  have h2: "queue ?ws = (ON_TRADE, PyObj 1) # [(ON_CONNECTED, PyNone)]" by simp
  have h3: "ON_TRADE \<notin> set [ON_CONNECTED]" by (simp add: kinds)
  from filtered_dispatch_discards [OF h1 h2 h3, of "[]"] show ?thesis by simp
qed

subsection \<open>C3: what dispatch returns\<close>

text \<open>
  C3. With a \<^verbatim>\<open>WSClient\<close> in place, \<^verbatim>\<open>dispatch()\<close> returns false on an empty queue.
  Otherwise it pops the first event: a Trade is emitted on the trade event and an
  OrderBookUpdate on the order-book event, a Connected event sets
  \<^verbatim>\<open>__initializationOk\<close>, a Disconnected event runs \<^verbatim>\<open>__onDisconnected\<close> (dispatch
  returns once that handler does, and at once when reconnection is off); each of these
  returns true. An event of any other kind is logged as an error and returns false.
  So a call that returns gives true exactly when an event of one of the four kinds was
  popped.
\<close>

theorem dispatch_returns_true_iff_handled:
  assumes "wsClient c = Some ws"
  shows "(queue ws = [] \<longrightarrow> dispatch env c = Some (c, Inr False)) \<and>
    (\<forall>k d rest. queue ws = (k, d) # rest \<longrightarrow>
       (k = ON_TRADE \<longrightarrow>
          dispatch env c =
            Some (c\<lparr>wsClient := Some (ws\<lparr>queue := rest\<rparr>), tradeEvent := emit d (tradeEvent c)\<rparr>,
                  Inr True)) \<and>
       (k = ON_ORDER_BOOK_UPDATE \<longrightarrow>
          dispatch env c =
            Some (c\<lparr>wsClient := Some (ws\<lparr>queue := rest\<rparr>),
                    orderBookUpdateEvent := emit d (orderBookUpdateEvent c)\<rparr>, Inr True)) \<and>
       (k = ON_CONNECTED \<longrightarrow>
          dispatch env c =
            Some (c\<lparr>wsClient := Some (ws\<lparr>queue := rest\<rparr>), initializationOk := Some True\<rparr>,
                  Inr True)) \<and>
       (k = ON_DISCONNECTED \<longrightarrow>
          dispatch env c =
            (case onDisconnected env (c\<lparr>wsClient := Some (ws\<lparr>queue := rest\<rparr>)\<rparr>) of
               None \<Rightarrow> None | Some (c2, r) \<Rightarrow> Some (c2, Inr True))) \<and>
       (k = ON_DISCONNECTED \<and> \<not> enableReconnection c \<longrightarrow>
          dispatch env c =
            Some (c\<lparr>wsClient := Some (ws\<lparr>queue := rest\<rparr>), stopped := True\<rparr>, Inr True)) \<and>
       (k \<notin> {ON_TRADE, ON_ORDER_BOOK_UPDATE, ON_CONNECTED, ON_DISCONNECTED} \<longrightarrow>
          dispatch env c =
            Some (cLog LError ''Invalid event received to dispatch: %s - %s'' [ArgInt k, ArgVal d]
                    (c\<lparr>wsClient := Some (ws\<lparr>queue := rest\<rparr>)\<rparr>), Inr False))) \<and>
    (\<forall>c' res. dispatch env c = Some (c', res) \<longrightarrow>
       (res = Inr True \<longleftrightarrow>
          (\<exists>k d rest. queue ws = (k, d) # rest \<and>
             k \<in> {ON_TRADE, ON_ORDER_BOOK_UPDATE, ON_CONNECTED, ON_DISCONNECTED})))"
proof (intro conjI allI impI)
  show "dispatch env c = Some (c, Inr False)" if "queue ws = []"
    using assms that by (rule dispatch_empty)
next
  fix k d rest
  assume q: "queue ws = (k, d) # rest"
  show "dispatch env c =
      Some (c\<lparr>wsClient := Some (ws\<lparr>queue := rest\<rparr>), tradeEvent := emit d (tradeEvent c)\<rparr>, Inr True)"
    if "k = ON_TRADE"
    using dispatch_trade [OF assms] q that by simp
  show "dispatch env c =
      Some (c\<lparr>wsClient := Some (ws\<lparr>queue := rest\<rparr>),
              orderBookUpdateEvent := emit d (orderBookUpdateEvent c)\<rparr>, Inr True)"
    if "k = ON_ORDER_BOOK_UPDATE"
    using dispatch_orderBookUpdate [OF assms] q that by simp
  show "dispatch env c =
      Some (c\<lparr>wsClient := Some (ws\<lparr>queue := rest\<rparr>), initializationOk := Some True\<rparr>, Inr True)"
    if "k = ON_CONNECTED"
    using dispatch_connected [OF assms] q that by simp
  show "dispatch env c =
      (case onDisconnected env (c\<lparr>wsClient := Some (ws\<lparr>queue := rest\<rparr>)\<rparr>) of
         None \<Rightarrow> None | Some (c2, r) \<Rightarrow> Some (c2, Inr True))"
    if "k = ON_DISCONNECTED"
    using dispatch_disconnected [OF assms] q that by simp
  show "dispatch env c =
      Some (c\<lparr>wsClient := Some (ws\<lparr>queue := rest\<rparr>), stopped := True\<rparr>, Inr True)"
    if "k = ON_DISCONNECTED \<and> \<not> enableReconnection c"
    using dispatch_disconnected_no_reconnection [OF assms] q that by simp
  show "dispatch env c =
      Some (cLog LError ''Invalid event received to dispatch: %s - %s'' [ArgInt k, ArgVal d]
              (c\<lparr>wsClient := Some (ws\<lparr>queue := rest\<rparr>)\<rparr>), Inr False)"
    if "k \<notin> {ON_TRADE, ON_ORDER_BOOK_UPDATE, ON_CONNECTED, ON_DISCONNECTED}"
    using dispatch_invalid [OF assms q that] .
next
  fix c' res
  assume "dispatch env c = Some (c', res)"
  from dispatch_True_iff [OF assms this]
  show "res = Inr True \<longleftrightarrow>
         (\<exists>k d rest. queue ws = (k, d) # rest \<and>
            k \<in> {ON_TRADE, ON_ORDER_BOOK_UPDATE, ON_CONNECTED, ON_DISCONNECTED})" .
qed

theorem dispatch_returns_true_iff_handled_witness:
  "wsClient (Client_init\<lparr>wsClient := Some \<lparr>queue = [(ON_DISCONNECTED, PyNone), (ON_TRADE, PyObj 1)], wsEffects = []\<rparr>\<rparr>)
     = Some \<lparr>queue = [(ON_DISCONNECTED, PyNone), (ON_TRADE, PyObj 1)], wsEffects = []\<rparr> \<and>
   dispatch [] (Client_init\<lparr>wsClient := Some \<lparr>queue = [(ON_DISCONNECTED, PyNone), (ON_TRADE, PyObj 1)], wsEffects = []\<rparr>\<rparr>)
     = Some (Client_init\<lparr>wsClient := Some \<lparr>queue = [(ON_TRADE, PyObj 1)], wsEffects = []\<rparr>, stopped := True\<rparr>,
             Inr True)"
proof -
  let ?ws = "\<lparr>queue = [(ON_DISCONNECTED, PyNone), (ON_TRADE, PyObj 1)], wsEffects = []\<rparr>"
  let ?c = "Client_init\<lparr>wsClient := Some ?ws\<rparr>"
  have h: "wsClient ?c = Some ?ws" by simp
  have n: "\<not> enableReconnection ?c" by (simp add: Client_init_def)
  have q: "queue ?ws = (ON_DISCONNECTED, PyNone) # [(ON_TRADE, PyObj 1)]" by simp
  from dispatch_returns_true_iff_handled [OF h, of "[]"]
  have "\<forall>k d rest. queue ?ws = (k, d) # rest \<longrightarrow>
          (k = ON_DISCONNECTED \<and> \<not> enableReconnection ?c \<longrightarrow>
             dispatch [] ?c = Some (?c\<lparr>wsClient := Some (?ws\<lparr>queue := rest\<rparr>), stopped := True\<rparr>, Inr True))"
    by blast
  from this [rule_format, OF q] n show ?thesis by simp
qed

subsection \<open>C4: the handler of a Disconnected event\<close>



subsection \<open>C5: a failed initialization\<close>

text \<open>
  C5. On a client without a thread: when the try block of \<^verbatim>\<open>__initializeClient\<close> raises
  (in \<^verbatim>\<open>WSClient()\<close>, in \<^verbatim>\<open>connect()\<close> or in the start of the thread), and also when
  the worker thread ends at some poll of the wait loop without having put a Connected
  event on the queue up to then, \<^verbatim>\<open>start()\<close> returns by raising
  \<^verbatim>\<open>Exception("Initialization failed")\<close>, with \<^verbatim>\<open>__stopped\<close> set, so that \<^verbatim>\<open>eof()\<close>
  is true. In general a \<^verbatim>\<open>start()\<close> that returns raises this exception exactly when no
  Connected event was handled, and then the client is stopped; otherwise it returns
  normally.
\<close>

theorem start_fails_when_initialization_fails:
  assumes "thread c = None"
  shows "(connecting a \<noteq> Connects \<longrightarrow>
            (\<exists>c'. start a c = Some (c', Inl InitializationFailed) \<and> stopped c' \<and> eof c')) \<and>
         (\<forall>k. connecting a = Connects \<and> k < length (activity a) \<and>
              (\<exists>w\<in>set (activity a ! k). endsThread w) \<and>
              (\<forall>w\<in>set (concat (take (Suc k) (activity a))). \<not> putsConnected w) \<longrightarrow>
            (\<exists>c'. start a c = Some (c', Inl InitializationFailed) \<and> stopped c' \<and> eof c')) \<and>
         (\<forall>c' r. start a c = Some (c', r) \<longrightarrow>
            (r = Inl InitializationFailed \<longleftrightarrow> initializationOk c' \<noteq> Some True) \<and>
            (r = Inl InitializationFailed \<longrightarrow> stopped c' \<and> eof c') \<and>
            (r \<noteq> Inl InitializationFailed \<longrightarrow> r = Inr ()))"
proof (intro conjI allI impI)
  assume "connecting a \<noteq> Connects"
  from initializeClient_connect_raises [OF this, of c] obtain c1 where
    "initializeClient a c = Some (c1, Inr (Some False))" by blast
  with assms have "start a c = Some (c1\<lparr>stopped := True\<rparr>, Inl InitializationFailed)"
    by (simp add: start_def)
  then show "\<exists>c'. start a c = Some (c', Inl InitializationFailed) \<and> stopped c' \<and> eof c'"
    by (simp add: eof_def)
next
  fix k
  assume h: "connecting a = Connects \<and> k < length (activity a) \<and>
              (\<exists>w\<in>set (activity a ! k). endsThread w) \<and>
              (\<forall>w\<in>set (concat (take (Suc k) (activity a))). \<not> putsConnected w)"
  then have "\<exists>c'. initializeClient a c = Some (c', Inr None)"
    using initializeClient_thread_dies [of a k c] by blast
  then obtain c1 where "initializeClient a c = Some (c1, Inr None)" by blast
  with assms have "start a c = Some (c1\<lparr>stopped := True\<rparr>, Inl InitializationFailed)"
    by (simp add: start_def)
  then show "\<exists>c'. start a c = Some (c', Inl InitializationFailed) \<and> stopped c' \<and> eof c'"
    by (simp add: eof_def)
next
  fix c' r
  assume s: "start a c = Some (c', r)"
  from start_result [OF assms s]
  show "r = Inl InitializationFailed \<longleftrightarrow> initializationOk c' \<noteq> Some True" by blast
next
  fix c' r
  assume s: "start a c = Some (c', r)" and "r = Inl InitializationFailed"
  with start_result [OF assms s] show "stopped c'" by blast
next
  fix c' r
  assume s: "start a c = Some (c', r)" and "r = Inl InitializationFailed"
  with start_result [OF assms s] show "eof c'" by blast
next
  fix c' r
  assume s: "start a c = Some (c', r)" and "r \<noteq> Inl InitializationFailed"
  with start_result [OF assms s] show "r = Inr ()" by blast
qed

theorem start_fails_when_initialization_fails_witness:
  "thread Client_init = None \<and>
   start \<lparr>connecting = Connects, activity = [[OnTrade (PyObj 1)], [StartClientReturns]]\<rparr> Client_init
     = Some (Client_init\<lparr>thread := Some Finished, wsClient := Some WSClient_init, stopped := True,
               effects := [Log LInfo ''Initializing client.'' [], Log LDebug ''Thread started.'' [],
                           Log LDebug ''Thread finished.'' [], Log LError ''Initialization failed.'' []]\<rparr>,
             Inl InitializationFailed) \<and>
   eof (Client_init\<lparr>thread := Some Finished, wsClient := Some WSClient_init, stopped := True,
               effects := [Log LInfo ''Initializing client.'' [], Log LDebug ''Thread started.'' [],
                           Log LDebug ''Thread finished.'' [], Log LError ''Initialization failed.'' []]\<rparr>)"
proof -
  let ?a = "\<lparr>connecting = Connects, activity = [[OnTrade (PyObj 1)], [StartClientReturns]]\<rparr>"
  let ?c' = "Client_init\<lparr>thread := Some Finished, wsClient := Some WSClient_init, stopped := True,
               effects := [Log LInfo ''Initializing client.'' [], Log LDebug ''Thread started.'' [],
                           Log LDebug ''Thread finished.'' [], Log LError ''Initialization failed.'' []]\<rparr>"
  have h: "thread Client_init = None" by (simp add: Client_init_def)
  have s: "start ?a Client_init = Some (?c', Inl InitializationFailed)"
    by (auto simp: model_defs InitializationFailed_def)
  from start_fails_when_initialization_fails [OF h, of ?a]
  have "\<forall>k. connecting ?a = Connects \<and> k < length (activity ?a) \<and>
              (\<exists>w\<in>set (activity ?a ! k). endsThread w) \<and>
              (\<forall>w\<in>set (concat (take (Suc k) (activity ?a))). \<not> putsConnected w) \<longrightarrow>
            (\<exists>c'. start ?a Client_init = Some (c', Inl InitializationFailed) \<and> stopped c' \<and> eof c')"
    by blast
  from this [rule_format, of "Suc 0"]
  have "\<exists>c'. start ?a Client_init = Some (c', Inl InitializationFailed) \<and> stopped c' \<and> eof c'"
    by simp
  with s have "eof ?c'" by auto
  with h s show ?thesis by blast
qed

subsection \<open>C6: stop\<close>

text \<open>
  C6. \<^verbatim>\<open>stop()\<close> returns normally from every client and whatever \<^verbatim>\<open>stopClient()\<close>
  does; afterwards \<^verbatim>\<open>__stopped\<close> is set and \<^verbatim>\<open>eof()\<close> is true, and the same holds
  for a second call after the first. The request to close is made, if at all, on a
  client whose flag is already set (what \<^verbatim>\<open>stopClient()\<close> would answer to a client with
  the flag clear has no influence). \<^verbatim>\<open>stop()\<close> changes no field but the flag and the log,
  and when the request raises, the exception is logged as an error and not raised.
\<close>

theorem stop_never_raises:
  "snd (stop stopClient c) = Inr () \<and>
   stopped (fst (stop stopClient c)) \<and> eof (fst (stop stopClient c)) \<and>
   snd (stop stopClient' (fst (stop stopClient c))) = Inr () \<and>
   eof (fst (stop stopClient' (fst (stop stopClient c)))) \<and>
   stop stopClient c = stop (\<lambda>x. if stopped x then stopClient x else None) c \<and>
   fst (stop stopClient c) = c\<lparr>stopped := True, effects := effects (fst (stop stopClient c))\<rparr> \<and>
   (\<forall>ws e. thread c = Some Running \<and> wsClient c = Some ws \<and>
      stopClient (cLog LInfo ''Shutting down client.'' [] (c\<lparr>stopped := True\<rparr>)) = Some e \<longrightarrow>
      stop stopClient c =
        (cLog LError ''Error shutting down client: %s'' [ArgExn e]
           (cLog LInfo ''Shutting down client.'' [] (c\<lparr>stopped := True\<rparr>)), Inr ()))"
proof -
  have a: "snd (stop sc x) = Inr () \<and> stopped (fst (stop sc x))" for sc x
    by (simp add: stop_def stop_try_def Let_def cLog_def split: option.splits prod.splits sum.splits)
  have b: "stop stopClient c = stop (\<lambda>x. if stopped x then stopClient x else None) c"
    by (simp add: stop_def stop_try_def Let_def cLog_def split: option.splits)
  have d: "fst (stop stopClient c) = c\<lparr>stopped := True, effects := effects (fst (stop stopClient c))\<rparr>"
    by (simp add: stop_def stop_try_def Let_def cLog_def split: option.splits)
  have e: "\<forall>ws e. thread c = Some Running \<and> wsClient c = Some ws \<and>
      stopClient (cLog LInfo ''Shutting down client.'' [] (c\<lparr>stopped := True\<rparr>)) = Some e \<longrightarrow>
      stop stopClient c =
        (cLog LError ''Error shutting down client: %s'' [ArgExn e]
           (cLog LInfo ''Shutting down client.'' [] (c\<lparr>stopped := True\<rparr>)), Inr ())"
    by (simp add: stop_def stop_try_def Let_def cLog_def)
  from a [of stopClient c] a [of stopClient' "fst (stop stopClient c)"] b d e
  show ?thesis unfolding eof_def by blast
qed

theorem stop_never_raises_witness:
  "stop (\<lambda>x. Some (RuntimeError ''closing failed''))
     (Client_init\<lparr>thread := Some Running, wsClient := Some WSClient_init\<rparr>)
   = (Client_init\<lparr>thread := Some Running, wsClient := Some WSClient_init, stopped := True,
                  effects := [Log LInfo ''Shutting down client.'' [],
                              Log LError ''Error shutting down client: %s''
                                [ArgExn (RuntimeError ''closing failed'')]]\<rparr>, Inr ())"
proof -
  let ?c = "Client_init\<lparr>thread := Some Running, wsClient := Some WSClient_init\<rparr>"
  let ?sc = "\<lambda>x::Client. Some (RuntimeError ''closing failed'')"
  from stop_never_raises [of ?sc ?c ?sc]
  have "\<forall>ws e. thread ?c = Some Running \<and> wsClient ?c = Some ws \<and>
      ?sc (cLog LInfo ''Shutting down client.'' [] (?c\<lparr>stopped := True\<rparr>)) = Some e \<longrightarrow>
      stop ?sc ?c =
        (cLog LError ''Error shutting down client: %s'' [ArgExn e]
           (cLog LInfo ''Shutting down client.'' [] (?c\<lparr>stopped := True\<rparr>)), Inr ())"
    by blast
  from this [rule_format, of WSClient_init "RuntimeError ''closing failed''"]
  show ?thesis by (simp add: cLog_def Client_init_def)
qed

subsection \<open>C7: start on a client that already has a thread\<close>

text \<open>
  C7. When \<^verbatim>\<open>__thread\<close> is not \<^verbatim>\<open>None\<close>, \<^verbatim>\<open>start()\<close> raises
  \<^verbatim>\<open>Exception("Already running")\<close> and the client after the call is the client before
  it, field for field (nothing is logged either).
\<close>

theorem start_already_running:
  "thread c \<noteq> None \<Longrightarrow> start a c = Some (c, Inl AlreadyRunning)"
  by (simp add: start_def)

theorem start_already_running_witness:
  "start succeedingAttempt (Client_init\<lparr>thread := Some Finished, stopped := True\<rparr>)
   = Some (Client_init\<lparr>thread := Some Finished, stopped := True\<rparr>, Inl (Exception (PyStr ''Already running'')))"
proof -
  have h: "thread (Client_init\<lparr>thread := Some Finished, stopped := True\<rparr>) \<noteq> None" by simp
  from start_already_running [OF h, of succeedingAttempt] show ?thesis
    by (simp add: AlreadyRunning_def)
qed

subsection \<open>C8: a detected disconnection always reaches the queue\<close>

text \<open>
  C8. \<^verbatim>\<open>onDisconnectionDetected\<close> never raises; whether \<^verbatim>\<open>stopClient()\<close> returns or
  raises, the queue afterwards is the queue before followed by exactly one
  \<^verbatim>\<open>(ON_DISCONNECTED, None)\<close>, and a failure of \<^verbatim>\<open>stopClient()\<close> is logged as an error.
\<close>

theorem onDisconnectionDetected_always_pushes:
  "snd (onDisconnectionDetected stopClient ws) = Inr ()
   \<and> queue (fst (onDisconnectionDetected stopClient ws)) = queue ws @ [(ON_DISCONNECTED, PyNone)]
   \<and> wsEffects (fst (onDisconnectionDetected stopClient ws)) =
       wsEffects ws @ Log LInfo ''Disconnection detected.'' [] #
         (case stopClient of None \<Rightarrow> [] | Some e \<Rightarrow> [Log LError ''Error stopping client: %s'' [ArgExn e]])"
  by (simp add: onDisconnectionDetected_def onDisconnectionDetected_try_def put_def wsLog_def
      split: option.splits)

theorem onDisconnectionDetected_always_pushes_witness:
  "onDisconnectionDetected (Some (RuntimeError ''socket closed'')) \<lparr>queue = [(ON_TRADE, PyObj 1)], wsEffects = []\<rparr>
   = (\<lparr>queue = [(ON_TRADE, PyObj 1), (ON_DISCONNECTED, PyNone)],
       wsEffects = [Log LInfo ''Disconnection detected.'' [],
                    Log LError ''Error stopping client: %s'' [ArgExn (RuntimeError ''socket closed'')]]\<rparr>, Inr ())"
  using onDisconnectionDetected_always_pushes
    [of "Some (RuntimeError ''socket closed'')" "\<lparr>queue = [(ON_TRADE, PyObj 1)], wsEffects = []\<rparr>"]
  by (simp add: prod_eq_iff)

subsection \<open>C9: cancelOrder\<close>



subsection \<open>C10: the client is single-use\<close>

text \<open>
  C10. Take any client reached from a new one by calls of the public methods,
  subscriptions and steps of the worker, in which \<^verbatim>\<open>__thread\<close> is set. After any
  further sequence of such calls (\<^verbatim>\<open>stop\<close>, \<^verbatim>\<open>join\<close>, \<^verbatim>\<open>dispatch\<close>, the end of the
  thread, ...) \<^verbatim>\<open>__thread\<close> is still set, and \<^verbatim>\<open>start()\<close> raises
  \<^verbatim>\<open>Exception("Already running")\<close> and changes nothing.
\<close>

theorem thread_never_cleared:
  assumes "run cs Client_init = Some c" and "thread c \<noteq> None" and "run cs' c = Some c'"
  shows "thread c' \<noteq> None \<and> start a c' = Some (c', Inl AlreadyRunning)"
proof -
  from run_frame [OF assms(1)] Client_init_no_reconnection have "\<not> enableReconnection c" by simp
  with run_frame [OF assms(3)] assms(2) have "thread c' \<noteq> None" by simp
  then show ?thesis by (simp add: start_def)
qed

theorem thread_never_cleared_witness:
  "run [Start succeedingAttempt] Client_init
     = Some (Client_init\<lparr>thread := Some Running, initializationOk := Some True,
                wsClient := Some \<lparr>queue = [], wsEffects = [Log LInfo ''Connection established.'' []]\<rparr>,
                effects := [Log LInfo ''Initializing client.'' [], Log LDebug ''Thread started.'' [],
                            Log LInfo ''Initialization ok.'' []]\<rparr>) \<and>
   run [Stop (\<lambda>c. None), Worker StartClientReturns, Join []]
       (Client_init\<lparr>thread := Some Running, initializationOk := Some True,
                wsClient := Some \<lparr>queue = [], wsEffects = [Log LInfo ''Connection established.'' []]\<rparr>,
                effects := [Log LInfo ''Initializing client.'' [], Log LDebug ''Thread started.'' [],
                            Log LInfo ''Initialization ok.'' []]\<rparr>)
     = Some (Client_init\<lparr>thread := Some Finished, initializationOk := Some True,
                wsClient := Some \<lparr>queue = [], wsEffects = [Log LInfo ''Connection established.'' []]\<rparr>,
                stopped := True,
                effects := [Log LInfo ''Initializing client.'' [], Log LDebug ''Thread started.'' [],
                            Log LInfo ''Initialization ok.'' [], Log LInfo ''Shutting down client.'' [],
                            Log LDebug ''Thread finished.'' []]\<rparr>) \<and>
   start succeedingAttempt
       (Client_init\<lparr>thread := Some Finished, initializationOk := Some True,
                wsClient := Some \<lparr>queue = [], wsEffects = [Log LInfo ''Connection established.'' []]\<rparr>,
                stopped := True,
                effects := [Log LInfo ''Initializing client.'' [], Log LDebug ''Thread started.'' [],
                            Log LInfo ''Initialization ok.'' [], Log LInfo ''Shutting down client.'' [],
                            Log LDebug ''Thread finished.'' []]\<rparr>)
     = Some (Client_init\<lparr>thread := Some Finished, initializationOk := Some True,
                wsClient := Some \<lparr>queue = [], wsEffects = [Log LInfo ''Connection established.'' []]\<rparr>,
                stopped := True,
                effects := [Log LInfo ''Initializing client.'' [], Log LDebug ''Thread started.'' [],
                            Log LInfo ''Initialization ok.'' [], Log LInfo ''Shutting down client.'' [],
                            Log LDebug ''Thread finished.'' []]\<rparr>, Inl AlreadyRunning)"
proof -
  let ?c1 = "Client_init\<lparr>thread := Some Running, initializationOk := Some True,
                wsClient := Some \<lparr>queue = [], wsEffects = [Log LInfo ''Connection established.'' []]\<rparr>,
                effects := [Log LInfo ''Initializing client.'' [], Log LDebug ''Thread started.'' [],
                            Log LInfo ''Initialization ok.'' []]\<rparr>"
  let ?c2 = "Client_init\<lparr>thread := Some Finished, initializationOk := Some True,
                wsClient := Some \<lparr>queue = [], wsEffects = [Log LInfo ''Connection established.'' []]\<rparr>,
                stopped := True,
                effects := [Log LInfo ''Initializing client.'' [], Log LDebug ''Thread started.'' [],
                            Log LInfo ''Initialization ok.'' [], Log LInfo ''Shutting down client.'' [],
                            Log LDebug ''Thread finished.'' []]\<rparr>"
  have h1: "run [Start succeedingAttempt] Client_init = Some ?c1"
    by (auto simp: model_defs)
  have h2: "thread ?c1 \<noteq> None" by simp
  have h3: "run [Stop (\<lambda>c. None), Worker StartClientReturns, Join []] ?c1 = Some ?c2"
    by (auto simp: model_defs)
  from thread_never_cleared [OF h1 h2 h3, of succeedingAttempt] h1 h3 show ?thesis by blast
qed

end
